theory Spec2Isabelle
  imports Complex_Main "HOL-Library.Multiset" "HOL-Library.List_Lexorder"
    "HOL-Library.Product_Lexorder"
begin

section \<open>Python strings\<close>

text \<open>
  A Python \<^verbatim>\<open>str\<close> is a sequence of Unicode code points; it is modelled as a list of
  natural numbers, one per code point, so that the result of percent-decoding (which can
  produce code points above 255) has a value. \<open>py\<close> turns a literal into such a list.
  Lists of numbers are compared lexicographically (List_Lexorder), which is how Python
  compares strings.
\<close>

type_synonym pystr = "nat list"

definition py :: "string \<Rightarrow> pystr" where
  "py s = map of_char s"

definition startswith :: "pystr \<Rightarrow> pystr \<Rightarrow> bool" where
  "startswith s p = (take (length p) s = p)"

definition endswith :: "pystr \<Rightarrow> pystr \<Rightarrow> bool" where
  "endswith s p = (length p \<le> length s \<and> drop (length s - length p) s = p)"

text \<open>\<^verbatim>\<open>s.split(c)[0]\<close> and \<^verbatim>\<open>s.split(c)[-1]\<close> for a one-character separator.\<close>

definition split_first :: "nat \<Rightarrow> pystr \<Rightarrow> pystr" where
  "split_first c s = takeWhile (\<lambda>x. x \<noteq> c) s"

definition split_last :: "nat \<Rightarrow> pystr \<Rightarrow> pystr" where
  "split_last c s = rev (takeWhile (\<lambda>x. x \<noteq> c) (rev s))"

section \<open>urllib.parse.unquote\<close>

text \<open>
  \<^verbatim>\<open>normalize_url\<close> calls the standard library's \<^verbatim>\<open>urllib.parse.unquote(url)\<close>
  (encoding utf-8, errors 'replace'). The library returns the string unchanged when it has
  no \<^verbatim>\<open>%\<close>; otherwise it cuts the string into maximal runs of ASCII and of non-ASCII
  characters, keeps the non-ASCII runs, and in each ASCII run replaces every
  \<^verbatim>\<open>%XX\<close> (two hexadecimal digits) by the byte XX and decodes the bytes of the run as
  UTF-8, an ill-formed sequence becoming U+FFFD.
\<close>

definition is_hexdig :: "nat \<Rightarrow> bool" where
  "is_hexdig c = ((48 \<le> c \<and> c \<le> 57) \<or> (65 \<le> c \<and> c \<le> 70) \<or> (97 \<le> c \<and> c \<le> 102))"

definition hexval :: "nat \<Rightarrow> nat" where
  "hexval c = (if c \<le> 57 then c - 48 else if c \<le> 70 then c - 55 else c - 87)"

fun unquote_to_bytes :: "nat list \<Rightarrow> nat list" where
  "unquote_to_bytes (p # a # b # r) =
     (if p = 37 \<and> is_hexdig a \<and> is_hexdig b
      then (hexval a * 16 + hexval b) # unquote_to_bytes r
      else p # unquote_to_bytes (a # b # r))"
| "unquote_to_bytes xs = xs"

definition is_cont :: "nat \<Rightarrow> bool" where
  "is_cont b = (128 \<le> b \<and> b < 192)"

definition replacement :: nat where
  "replacement = 65533"

fun utf8_decode :: "nat list \<Rightarrow> nat list" where
  "utf8_decode [] = []"
| "utf8_decode (b # bs) =
     (if b < 128 then b # utf8_decode bs
      else if b < 194 then replacement # utf8_decode bs
      else if b < 224 then
        (case bs of
           [] \<Rightarrow> [replacement]
         | b2 # r2 \<Rightarrow>
             if \<not> is_cont b2 then replacement # utf8_decode bs
             else ((b - 192) * 64 + (b2 - 128)) # utf8_decode r2)
      else if b < 240 then
        (case bs of
           [] \<Rightarrow> [replacement]
         | b2 # r2 \<Rightarrow>
             if \<not> is_cont b2 \<or> (if b2 < 160 then b = 224 else b = 237)
             then replacement # utf8_decode bs
             else (case r2 of
                     [] \<Rightarrow> [replacement]
                   | b3 # r3 \<Rightarrow>
                       if \<not> is_cont b3 then replacement # utf8_decode r2
                       else ((b - 224) * 4096 + (b2 - 128) * 64 + (b3 - 128)) # utf8_decode r3))
      else if b < 245 then
        (case bs of
           [] \<Rightarrow> [replacement]
         | b2 # r2 \<Rightarrow>
             if \<not> is_cont b2 \<or> (if b2 < 144 then b = 240 else b = 244)
             then replacement # utf8_decode bs
             else (case r2 of
                     [] \<Rightarrow> [replacement]
                   | b3 # r3 \<Rightarrow>
                       if \<not> is_cont b3 then replacement # utf8_decode r2
                       else (case r3 of
                               [] \<Rightarrow> [replacement]
                             | b4 # r4 \<Rightarrow>
                                 if \<not> is_cont b4 then replacement # utf8_decode r3
                                 else ((b - 240) * 262144 + (b2 - 128) * 4096
                                       + (b3 - 128) * 64 + (b4 - 128)) # utf8_decode r4)))
      else replacement # utf8_decode bs)"

definition unquote_run :: "nat list \<Rightarrow> pystr" where
  "unquote_run run = utf8_decode (unquote_to_bytes run)"

text \<open>\<open>unquote_parts run s\<close>: \<open>run\<close> is the ASCII run read so far, \<open>s\<close> the rest.\<close>

fun unquote_parts :: "nat list \<Rightarrow> pystr \<Rightarrow> pystr" where
  "unquote_parts run [] = unquote_run run"
| "unquote_parts run (c # cs) =
     (if c < 128 then unquote_parts (run @ [c]) cs
      else unquote_run run @ c # unquote_parts [] cs)"

definition unquote :: "pystr \<Rightarrow> pystr" where
  "unquote s = (if 37 \<notin> set s then s else unquote_parts [] s)"

section \<open>URL normalizer (link\_graph.py)\<close>

definition normalize_url :: "pystr \<Rightarrow> pystr" where
  "normalize_url url0 =
    (let url1 = (if 35 \<in> set url0 then split_first 35 url0 else url0);
         url2 = (if 63 \<in> set url1 then split_first 63 url1 else url1);
         url3 = unquote url2;
         url4 = (if \<not> startswith url3 [47] then 47 # url3 else url3)
     in if \<not> endswith url4 [47] \<and> 46 \<notin> set (split_last 47 url4)
        then url4 @ [47] else url4)"

section \<open>Dictionaries and builtins\<close>

text \<open>
  A Python \<^verbatim>\<open>dict\<close> is an association list in insertion order. \<open>dict_set\<close> is
  \<^verbatim>\<open>d[k] = v\<close>: an existing key keeps its place. \<open>dict_get\<close> is \<^verbatim>\<open>d.get(k, [])\<close>.
  \<open>dict_append\<close> is \<^verbatim>\<open>d[k].append(v)\<close> on a \<^verbatim>\<open>defaultdict(list)\<close>.
\<close>

fun dict_set :: "'k \<Rightarrow> 'v \<Rightarrow> ('k \<times> 'v) list \<Rightarrow> ('k \<times> 'v) list" where
  "dict_set k v [] = [(k, v)]"
| "dict_set k v ((k', v') # d) = (if k' = k then (k, v) # d else (k', v') # dict_set k v d)"

definition dict_get :: "('k \<times> 'v list) list \<Rightarrow> 'k \<Rightarrow> 'v list" where
  "dict_get d k = (case map_of d k of None \<Rightarrow> [] | Some vs \<Rightarrow> vs)"

definition dict_append :: "'k \<Rightarrow> 'v \<Rightarrow> ('k \<times> 'v list) list \<Rightarrow> ('k \<times> 'v list) list" where
  "dict_append k v d = dict_set k (dict_get d k @ [v]) d"

text \<open>
  A Python \<^verbatim>\<open>set\<close> is a list without repetition; the order in which Python iterates
  over a set is not specified, and the model takes the order of insertion.
  \<open>list_of_set\<close> is \<^verbatim>\<open>list(set(xs))\<close>.
\<close>

definition set_add :: "'a \<Rightarrow> 'a list \<Rightarrow> 'a list" where
  "set_add x s = (if x \<in> set s then s else s @ [x])"

definition list_of_set :: "'a list \<Rightarrow> 'a list" where
  "list_of_set xs = remdups xs"

text \<open>
  \<^verbatim>\<open>sorted(xs, key=f)\<close> is a stable sort; with \<^verbatim>\<open>reverse=True\<close> Python reverses
  the list, sorts it and reverses the result, so that equal keys keep their order.
\<close>

definition sorted_key :: "('a \<Rightarrow> 'k::linorder) \<Rightarrow> 'a list \<Rightarrow> 'a list" where
  "sorted_key f xs = sort_key f xs"

definition sorted_key_reverse :: "('a \<Rightarrow> 'k::linorder) \<Rightarrow> 'a list \<Rightarrow> 'a list" where
  "sorted_key_reverse f xs = rev (sort_key f (rev xs))"

text \<open>
  \<^verbatim>\<open>str.lower\<close> is taken as a parameter \<open>lower\<close> wherever the code calls it;
  \<open>ascii_lower\<close> is what it does on an ASCII string.
\<close>

definition ascii_lower :: "pystr \<Rightarrow> pystr" where
  "ascii_lower s = map (\<lambda>c. if 65 \<le> c \<and> c \<le> 90 then c + 32 else c) s"

text \<open>\<^verbatim>\<open>p in s\<close> for strings: \<open>p\<close> occurs in \<open>s\<close> as a substring.\<close>

fun contains :: "pystr \<Rightarrow> pystr \<Rightarrow> bool" where
  "contains [] p = (p = [])"
| "contains (c # s) p = (startswith (c # s) p \<or> contains s p)"

section \<open>Link graph analyzer (link\_graph.py)\<close>

text \<open>
  The floating-point operations of \<^verbatim>\<open>calculate_metrics\<close> are parameters: \<open>truediv\<close> is
  \<^verbatim>\<open>/\<close> on two integers (a finite float; Python raises rather than return infinity),
  \<open>round2\<close> is \<^verbatim>\<open>round(x, 2)\<close> and \<open>fzero\<close> is \<^verbatim>\<open>0.0\<close>. The local \<^verbatim>\<open>ratio\<close> is
  \<^verbatim>\<open>float('inf')\<close> or a finite float; the field \<^verbatim>\<open>ratio\<close> holds the integer
  \<^verbatim>\<open>-1\<close> or a float.
\<close>

record 'f float_ops =
  truediv :: "int \<Rightarrow> int \<Rightarrow> 'f"
  round2 :: "'f \<Rightarrow> 'f"
  fzero :: 'f

datatype 'f pyfloat = FInf | FFin 'f

datatype 'f pynum = PyInt int | PyFloat 'f

record 'f PageMetrics =
  url :: pystr
  inbound :: int
  outbound :: int
  ratio :: "'f pynum"
  inbound_from :: "pystr list"
  outbound_to :: "pystr list"

record 'f LinkGraphAnalyzer =
  excluded_paths :: "pystr list"
  excluded_extensions :: "pystr list"
  link_graph :: "(pystr \<times> pystr list) list"
  all_pages :: "pystr list"
  metrics :: "(pystr \<times> 'f PageMetrics) list"

definition default_excluded_extensions :: "pystr list" where
  "default_excluded_extensions = map py
     [''.css'', ''.js'', ''.png'', ''.jpg'', ''.jpeg'', ''.gif'', ''.svg'',
      ''.ico'', ''.pdf'', ''.xml'', ''.txt'', ''.woff'', ''.woff2'', ''.json'']"

text \<open>\<^verbatim>\<open>x or d\<close> for an optional list: \<^verbatim>\<open>None\<close> and the empty list both give \<open>d\<close>.\<close>

definition list_or :: "'a list option \<Rightarrow> 'a list \<Rightarrow> 'a list" where
  "list_or x d = (case x of None \<Rightarrow> d | Some xs \<Rightarrow> if xs = [] then d else xs)"

definition LinkGraphAnalyzer_init ::
  "pystr list option \<Rightarrow> pystr list option \<Rightarrow> 'f LinkGraphAnalyzer" where
  "LinkGraphAnalyzer_init ep ee =
     \<lparr> excluded_paths = list_or ep [],
       excluded_extensions = list_or ee default_excluded_extensions,
       link_graph = [], all_pages = [], metrics = [] \<rparr>"

text \<open>
  \<open>file_path_to_url\<close> takes \<^verbatim>\<open>str(file_path.relative_to(dist_path))\<close>, the path of the
  file below the site root.
\<close>

definition file_path_to_url :: "pystr \<Rightarrow> pystr" where
  "file_path_to_url relative =
    (let url = 47 # map (\<lambda>c. if c = 92 then 47 else c) relative
     in normalize_url
          (if endswith url (py ''/index.html'') then take (length url - 10) url
           else if endswith url (py ''.html'') then take (length url - 5) url @ [47]
           else url))"

definition is_excluded :: "(pystr \<Rightarrow> pystr) \<Rightarrow> 'f LinkGraphAnalyzer \<Rightarrow> pystr \<Rightarrow> bool" where
  "is_excluded lower a u =
    (list_ex (\<lambda>pattern. startswith u pattern) (excluded_paths a)
     \<or> list_ex (\<lambda>ext. endswith (lower u) ext) (excluded_extensions a))"

text \<open>
  The HTML parser is outside the program: \<open>extract_internal_links\<close> takes the
  \<^verbatim>\<open>href\<close> values of the document's anchors, in document order.
\<close>

definition extract_internal_links ::
  "(pystr \<Rightarrow> pystr) \<Rightarrow> 'f LinkGraphAnalyzer \<Rightarrow> pystr list \<Rightarrow> pystr list" where
  "extract_internal_links lower a hrefs =
     filter (\<lambda>normalized. \<not> is_excluded lower a normalized)
       (map normalize_url (filter (\<lambda>href. startswith href [47]) hrefs))"

text \<open>
  One step of the loop of \<open>build_graph\<close>, for a file given by its relative path and the
  \<^verbatim>\<open>href\<close> values of its content, \<open>None\<close> when reading or parsing the file raised
  (the \<^verbatim>\<open>except\<close> branch prints and goes on).
\<close>

definition build_graph_step ::
  "(pystr \<Rightarrow> pystr) \<Rightarrow> pystr \<times> pystr list option \<Rightarrow> 'f LinkGraphAnalyzer
     \<Rightarrow> 'f LinkGraphAnalyzer" where
  "build_graph_step lower file a =
    (let source_url = file_path_to_url (fst file)
     in if is_excluded lower a source_url then a
        else
          (let a1 = a\<lparr>all_pages := set_add source_url (all_pages a)\<rparr>
           in case snd file of
                None \<Rightarrow> a1
              | Some hrefs \<Rightarrow>
                  (let unique_links = list_of_set (extract_internal_links lower a1 hrefs)
                   in a1\<lparr>link_graph := dict_set source_url unique_links (link_graph a1),
                          all_pages := fold set_add unique_links (all_pages a1)\<rparr>)))"

definition build_graph ::
  "(pystr \<Rightarrow> pystr) \<Rightarrow> (pystr \<times> pystr list option) list \<Rightarrow> 'f LinkGraphAnalyzer
     \<Rightarrow> 'f LinkGraphAnalyzer" where
  "build_graph lower html_files a = fold (build_graph_step lower) html_files a"

text \<open>The reverse graph that \<open>calculate_metrics\<close> builds in its local \<^verbatim>\<open>inbound_from\<close>.\<close>

definition reverse_graph :: "(pystr \<times> pystr list) list \<Rightarrow> (pystr \<times> pystr list) list" where
  "reverse_graph g =
     fold (\<lambda>(source, targets) d. fold (\<lambda>target. dict_append target source) targets d) g []"

definition page_ratio :: "'f float_ops \<Rightarrow> int \<Rightarrow> int \<Rightarrow> 'f pyfloat" where
  "page_ratio ops inbound_count outbound_count =
     (if outbound_count = 0
      then (if inbound_count > 0 then FInf else FFin (fzero ops))
      else FFin (truediv ops inbound_count outbound_count))"

definition page_metrics ::
  "'f float_ops \<Rightarrow> (pystr \<times> pystr list) list \<Rightarrow> (pystr \<times> pystr list) list \<Rightarrow> pystr
     \<Rightarrow> 'f PageMetrics" where
  "page_metrics ops g rg page =
    (let inbound_list = dict_get rg page;
         outbound_list = dict_get g page;
         inbound_count = int (length inbound_list);
         outbound_count = int (length outbound_list)
     in \<lparr> url = page,
          inbound = inbound_count,
          outbound = outbound_count,
          ratio = (case page_ratio ops inbound_count outbound_count of
                     FInf \<Rightarrow> PyInt (- 1)
                   | FFin x \<Rightarrow> PyFloat (round2 ops x)),
          inbound_from = take 10 (sort inbound_list),
          outbound_to = take 10 (sort outbound_list) \<rparr>)"

definition calculate_metrics :: "'f float_ops \<Rightarrow> 'f LinkGraphAnalyzer \<Rightarrow> 'f LinkGraphAnalyzer" where
  "calculate_metrics ops a =
    (let rg = reverse_graph (link_graph a)
     in a\<lparr>metrics :=
            fold (\<lambda>page. dict_set page (page_metrics ops (link_graph a) rg page))
              (all_pages a) (metrics a)\<rparr>)"

subsection \<open>Classifier\<close>

definition orphan_pages :: "(pystr \<times> 'f PageMetrics) list \<Rightarrow> pystr list" where
  "orphan_pages m = map fst (filter (\<lambda>(page, pm). inbound pm = 0 \<and> page \<noteq> py ''/'') m)"

definition find_orphans :: "(pystr \<times> 'f PageMetrics) list \<Rightarrow> pystr list" where
  "find_orphans m = sort (orphan_pages m)"

record underlinked_entry =
  ul_url :: pystr
  ul_inbound :: int
  ul_inbound_from :: "pystr list"

record overlinked_entry =
  ol_url :: pystr
  ol_outbound :: int

record sink_entry =
  sk_url :: pystr
  sk_inbound :: int
  sk_outbound :: int

definition underlinked_pages ::
  "int \<Rightarrow> (pystr \<times> 'f PageMetrics) list \<Rightarrow> underlinked_entry list" where
  "underlinked_pages threshold m =
     map (\<lambda>(page, pm). \<lparr> ul_url = page, ul_inbound = inbound pm,
                          ul_inbound_from = inbound_from pm \<rparr>)
       (filter (\<lambda>(page, pm). 0 < inbound pm \<and> inbound pm < threshold) m)"

definition find_underlinked ::
  "int \<Rightarrow> (pystr \<times> 'f PageMetrics) list \<Rightarrow> underlinked_entry list" where
  "find_underlinked threshold m = sorted_key ul_inbound (underlinked_pages threshold m)"

definition overlinked_pages ::
  "int \<Rightarrow> (pystr \<times> 'f PageMetrics) list \<Rightarrow> overlinked_entry list" where
  "overlinked_pages threshold m =
     map (\<lambda>(page, pm). \<lparr> ol_url = page, ol_outbound = outbound pm \<rparr>)
       (filter (\<lambda>(page, pm). outbound pm > threshold) m)"

definition find_overlinked ::
  "int \<Rightarrow> (pystr \<times> 'f PageMetrics) list \<Rightarrow> overlinked_entry list" where
  "find_overlinked threshold m = sorted_key_reverse ol_outbound (overlinked_pages threshold m)"

definition sink_pages ::
  "int \<Rightarrow> int \<Rightarrow> (pystr \<times> 'f PageMetrics) list \<Rightarrow> sink_entry list" where
  "sink_pages min_inbound max_outbound m =
     map (\<lambda>(page, pm). \<lparr> sk_url = page, sk_inbound = inbound pm, sk_outbound = outbound pm \<rparr>)
       (filter (\<lambda>(page, pm). inbound pm \<ge> min_inbound \<and> outbound pm \<le> max_outbound) m)"

definition find_link_sinks ::
  "int \<Rightarrow> int \<Rightarrow> (pystr \<times> 'f PageMetrics) list \<Rightarrow> sink_entry list" where
  "find_link_sinks min_inbound max_outbound m =
     sorted_key_reverse sk_inbound (sink_pages min_inbound max_outbound m)"

section \<open>HTTP link checker (http\_checker.py)\<close>

text \<open>
  The network is outside the program. A request either returns a response (status code and
  reason phrase) or raises; an exception has a class of the \<^verbatim>\<open>requests\<close> library and
  a message. \<open>network\<close> gives the outcome of the HEAD and of the GET request for a URL at
  each attempt; the GET outcome includes reading the first block of the body and closing.
\<close>

datatype exc_class =
  Timeout | ConnectTimeout | ReadTimeout | ConnectionError | ProxyError | SSLError
  | TooManyRedirects | OtherException

record exception =
  exc_cls :: exc_class
  exc_msg :: pystr

datatype outcome = Response int pystr | Raises exception

datatype http_method = HEAD | GET

type_synonym network = "http_method \<Rightarrow> pystr \<Rightarrow> nat \<Rightarrow> outcome"

text \<open>
  The class hierarchy of \<^verbatim>\<open>requests.exceptions\<close>: \<^verbatim>\<open>ConnectTimeout\<close> derives from
  both \<^verbatim>\<open>ConnectionError\<close> and \<^verbatim>\<open>Timeout\<close>, \<^verbatim>\<open>ReadTimeout\<close> from \<^verbatim>\<open>Timeout\<close>,
  \<^verbatim>\<open>ProxyError\<close> and \<^verbatim>\<open>SSLError\<close> from \<^verbatim>\<open>ConnectionError\<close>.
\<close>

definition is_Timeout :: "exc_class \<Rightarrow> bool" where
  "is_Timeout c = (c = Timeout \<or> c = ConnectTimeout \<or> c = ReadTimeout)"

definition is_ConnectionError :: "exc_class \<Rightarrow> bool" where
  "is_ConnectionError c =
     (c = ConnectionError \<or> c = ProxyError \<or> c = SSLError \<or> c = ConnectTimeout)"

datatype event = Request http_method nat | Sleep nat

text \<open>
  One pass through the \<^verbatim>\<open>try\<close> block of \<open>check_url\<close>: the HEAD request, and the GET
  request when the HEAD response is 405 or 403. The second component lists the requests
  issued.
\<close>

definition try_request ::
  "network \<Rightarrow> pystr \<Rightarrow> nat \<Rightarrow> (exception + int \<times> pystr) \<times> event list" where
  "try_request net u attempt =
    (case net HEAD u attempt of
       Raises e \<Rightarrow> (Inl e, [Request HEAD attempt])
     | Response status reason \<Rightarrow>
         if status = 405 \<or> status = 403
         then (case net GET u attempt of
                 Raises e \<Rightarrow> (Inl e, [Request HEAD attempt, Request GET attempt])
               | Response status' reason' \<Rightarrow>
                   (Inr (status', reason'), [Request HEAD attempt, Request GET attempt]))
         else (Inr (status, reason), [Request HEAD attempt]))"

record probe_result =
  pr_url :: pystr
  status_code :: "int option"
  status_message :: pystr
  is_broken :: bool
  occurrences :: int
  sample_pages :: "pystr list"

record HTTPLinkChecker =
  timeout :: int
  max_workers :: int
  retry_count :: int
  user_agent :: pystr
  results :: "probe_result list"

definition HTTPLinkChecker_init :: "int \<Rightarrow> int \<Rightarrow> int \<Rightarrow> pystr \<Rightarrow> HTTPLinkChecker" where
  "HTTPLinkChecker_init t w r ua =
     \<lparr> timeout = t, max_workers = w, retry_count = r, user_agent = ua, results = [] \<rparr>"

text \<open>
  The \<^verbatim>\<open>for attempt in range(self.retry_count)\<close> loop over the attempts still to make.
  The result is the returned triple and the trace of requests and sleeps.
\<close>

fun check_url_attempts ::
  "HTTPLinkChecker \<Rightarrow> network \<Rightarrow> pystr \<Rightarrow> nat list
     \<Rightarrow> (int option \<times> pystr \<times> bool) \<times> event list" where
  "check_url_attempts c net u [] = ((None, py ''Unknown Error'', True), [])"
| "check_url_attempts c net u (attempt # rest) =
    (case try_request net u attempt of
       (Inr (status, reason), ev) \<Rightarrow> ((Some status, reason, status \<ge> 400), ev)
     | (Inl e, ev) \<Rightarrow>
         if is_Timeout (exc_cls e) then
           (if int attempt = retry_count c - 1 then ((None, py ''Timeout'', True), ev)
            else (case check_url_attempts c net u rest of
                    (r, ev') \<Rightarrow> (r, ev @ Sleep 1 # ev')))
         else if is_ConnectionError (exc_cls e) then
           ((None, py ''Connection Error (Domain may not exist)'', True), ev)
         else if exc_cls e = TooManyRedirects then
           ((None, py ''Too Many Redirects'', True), ev)
         else if exc_cls e = SSLError then
           ((None, py ''SSL Certificate Error'', True), ev)
         else ((None, py ''Error: '' @ exc_msg e, True), ev))"

definition check_url ::
  "HTTPLinkChecker \<Rightarrow> network \<Rightarrow> pystr \<Rightarrow> (int option \<times> pystr \<times> bool) \<times> event list" where
  "check_url c net u = check_url_attempts c net u [0..<nat (retry_count c)]"



text \<open>
  \<^verbatim>\<open>as_completed\<close> yields every submitted future once, in the order in which the
  workers finish, which the program does not control.
\<close>

inductive as_completed :: "'a list \<Rightarrow> 'a list \<Rightarrow> bool" where
  ac_done: "as_completed [] []"
| ac_next: "x \<in> set pending \<Longrightarrow> as_completed (remove1 x pending) rest
            \<Longrightarrow> as_completed pending (x # rest)"



subsection \<open>False-positive filter\<close>

definition default_bot_blockers :: "pystr list" where
  "default_bot_blockers = map py
     [''linkedin.com'', ''stackoverflow.com'', ''twitter.com'', ''x.com'',
      ''facebook.com'', ''instagram.com'', ''pixabay.com'', ''unsplash.com'']"

definition default_ignore_codes :: "int list" where
  "default_ignore_codes = [403, 503, 520, 999]"

definition is_false_positive ::
  "(pystr \<Rightarrow> pystr) \<Rightarrow> pystr list \<Rightarrow> int list \<Rightarrow> probe_result \<Rightarrow> bool" where
  "is_false_positive lower bot_blockers ignore_codes result =
    (let u = lower (pr_url result)
     in list_ex (\<lambda>domain. contains u domain) bot_blockers
        \<or> (case status_code result of None \<Rightarrow> False | Some code \<Rightarrow> code \<in> set ignore_codes)
        \<or> startswith u (py ''mailto:'') \<or> startswith u (py ''tel:''))"

text \<open>The loop over the results, with the two lists built so far.\<close>

fun filter_loop ::
  "(pystr \<Rightarrow> pystr) \<Rightarrow> pystr list \<Rightarrow> int list \<Rightarrow> probe_result list
     \<Rightarrow> probe_result list \<times> probe_result list \<Rightarrow> probe_result list \<times> probe_result list" where
  "filter_loop lower bb ic [] acc = acc"
| "filter_loop lower bb ic (result # rest) (real_broken, false_positives) =
    (if \<not> is_broken result then filter_loop lower bb ic rest (real_broken, false_positives)
     else if is_false_positive lower bb ic result
     then filter_loop lower bb ic rest (real_broken, false_positives @ [result])
     else filter_loop lower bb ic rest (real_broken @ [result], false_positives))"

definition filter_false_positives ::
  "(pystr \<Rightarrow> pystr) \<Rightarrow> probe_result list \<Rightarrow> pystr list option \<Rightarrow> int list option
     \<Rightarrow> probe_result list \<times> probe_result list" where
  "filter_false_positives lower rs bot_blocker_domains ignore_status_codes =
     filter_loop lower (list_or bot_blocker_domains default_bot_blockers)
       (list_or ignore_status_codes default_ignore_codes) rs ([], [])"

section \<open>Example inputs\<close>

text \<open>Two pages with the same counts, in this order in the metrics dictionary.\<close>

definition tie_metrics :: "(pystr \<times> unit PageMetrics) list" where
  "tie_metrics =
     [(py ''/b/'', \<lparr> url = py ''/b/'', inbound = 1, outbound = 1, ratio = PyFloat (),
                     inbound_from = [py ''/a/''], outbound_to = [py ''/a/''] \<rparr>),
      (py ''/a/'', \<lparr> url = py ''/a/'', inbound = 1, outbound = 1, ratio = PyFloat (),
                     inbound_from = [py ''/b/''], outbound_to = [py ''/b/''] \<rparr>)]"

text \<open>A broken result from a host of the built-in bot-blocker list, with a built-in ignored code.\<close>

definition blocked_result :: probe_result where
  "blocked_result =
     \<lparr> pr_url = py ''https://www.linkedin.com/in/someone'', status_code = Some 999,
       status_message = py ''Request denied'', is_broken = True, occurrences = 1,
       sample_pages = [py ''/about/''] \<rparr>"

section \<open>Vocabulary of the statements about the checker\<close>

text \<open>
  What happens at one attempt: the \<^verbatim>\<open>try\<close> block raises a timeout, or it raises a
  connection error that is not a timeout (DNS failure, connection refused).
\<close>

definition attempt_times_out :: "network \<Rightarrow> pystr \<Rightarrow> nat \<Rightarrow> bool" where
  "attempt_times_out net u i =
     (case fst (try_request net u i) of Inl e \<Rightarrow> is_Timeout (exc_cls e) | Inr r \<Rightarrow> False)"

definition attempt_connection_fails :: "network \<Rightarrow> pystr \<Rightarrow> nat \<Rightarrow> bool" where
  "attempt_connection_fails net u i =
     (case fst (try_request net u i) of
        Inl e \<Rightarrow> is_ConnectionError (exc_cls e) \<and> \<not> is_Timeout (exc_cls e)
      | Inr r \<Rightarrow> False)"

text \<open>The trace of the attempts \<open>a\<close> to \<open>k - 1\<close> when each is followed by the back-off sleep.\<close>

definition timeouts_trace :: "network \<Rightarrow> pystr \<Rightarrow> nat \<Rightarrow> nat \<Rightarrow> event list" where
  "timeouts_trace net u a k = concat (map (\<lambda>i. snd (try_request net u i) @ [Sleep 1]) [a..<k])"

text \<open>Networks and inputs of the examples.\<close>

definition net_refused :: network where
  "net_refused =
     (\<lambda>m u attempt. Raises \<lparr> exc_cls = ConnectionError, exc_msg = py ''Connection refused'' \<rparr>)"


definition net_flaky :: network where
  "net_flaky =
     (\<lambda>m u attempt.
        if attempt = 0 then Raises \<lparr> exc_cls = ReadTimeout, exc_msg = py ''Read timed out.'' \<rparr>
        else Raises \<lparr> exc_cls = ConnectionError, exc_msg = py ''Connection refused'' \<rparr>)"


definition default_checker :: HTTPLinkChecker where
  "default_checker =
     HTTPLinkChecker_init 5 20 1 (py ''Mozilla/5.0 (compatible; LinkChecker/1.0)'')"


text \<open>
  What a graph built by \<open>build_graph\<close> satisfies: the keys of the graph are distinct (it
  is a dictionary), the pages are distinct (they are a set), and every source and every
  target of the graph is one of the pages.
\<close>

definition graph_ok :: "'f LinkGraphAnalyzer \<Rightarrow> bool" where
  "graph_ok a =
     (distinct (map fst (link_graph a)) \<and> distinct (all_pages a)
      \<and> list_all (\<lambda>(source, targets). source \<in> set (all_pages a)
                     \<and> list_all (\<lambda>target. target \<in> set (all_pages a)) targets)
           (link_graph a))"

text \<open>
  The analyzer after the first two steps of \<^verbatim>\<open>analyze\<close>, \<^verbatim>\<open>build_graph\<close> and
  \<^verbatim>\<open>calculate_metrics\<close>, on a new \<^verbatim>\<open>LinkGraphAnalyzer\<close>.
\<close>

definition analyzed ::
  "'f float_ops \<Rightarrow> (pystr \<Rightarrow> pystr) \<Rightarrow> pystr list option \<Rightarrow> pystr list option
     \<Rightarrow> (pystr \<times> pystr list option) list \<Rightarrow> 'f LinkGraphAnalyzer" where
  "analyzed ops lower ep ee html_files =
     calculate_metrics ops (build_graph lower html_files (LinkGraphAnalyzer_init ep ee))"

text \<open>
  The site of three pages: \<^verbatim>\<open>/\<close> links to \<^verbatim>\<open>/a/\<close>, \<^verbatim>\<open>/a/\<close> links to \<^verbatim>\<open>/b/\<close>,
  \<^verbatim>\<open>/b/\<close> links to nothing. The floats of the example are rational numbers.
\<close>

definition three_pages :: "(pystr \<times> pystr list option) list" where
  "three_pages =
     [(py ''index.html'', Some [py ''/a/'', py ''https://example.com/'', py ''/a#top'']),
      (py ''a/index.html'', Some [py ''/b'']),
      (py ''b.html'', Some [])]"

definition rat_ops :: "rat float_ops" where
  "rat_ops = \<lparr> truediv = (\<lambda>a b. of_int a / of_int b),
               round2 = (\<lambda>x. of_int (round (x * 100)) / 100),
               fzero = 0 \<rparr>"

definition three_page_site :: "rat LinkGraphAnalyzer" where
  "three_page_site = build_graph ascii_lower three_pages (LinkGraphAnalyzer_init None None)"


section \<open>Properties of the URL normalizer\<close>

lemma unquote_no_percent: "37 \<notin> set s \<Longrightarrow> unquote s = s"
  by (simp add: unquote_def)

lemma split_first_notin: "c \<notin> set (split_first c s)"
  by (auto simp: split_first_def dest: set_takeWhileD)

lemma split_first_subset: "set (split_first c s) \<subseteq> set s"
  by (auto simp: split_first_def dest: set_takeWhileD)

lemma endswith_snoc: "endswith (s @ [c]) [c]"
  by (simp add: endswith_def)

lemma startswith_Cons: "startswith (c # s) [c]"
  by (simp add: startswith_def)

lemma startswith_append: "startswith s [c] \<Longrightarrow> startswith (s @ t) [c]"
  by (cases s) (simp_all add: startswith_def)

lemma normalize_url_startswith: "startswith (normalize_url u) [47]"
  unfolding normalize_url_def Let_def
  by (auto intro: startswith_Cons startswith_append)

lemma normalize_url_trailing:
  "endswith (normalize_url u) [47] \<or> 46 \<in> set (split_last 47 (normalize_url u))"
  unfolding normalize_url_def Let_def
  by (simp only: endswith_snoc split: if_split) blast

text \<open>
  A string is left as it is by \<open>normalize_url\<close> when it has no \<^verbatim>\<open>#\<close> and no \<^verbatim>\<open>?\<close>,
  percent-decoding does not change it, it starts with a slash, and it ends with a slash or
  has a dot in its last segment.
\<close>

lemma normalize_url_fixed:
  assumes "35 \<notin> set v" "63 \<notin> set v" "unquote v = v" "startswith v [47]"
    "endswith v [47] \<or> 46 \<in> set (split_last 47 v)"
  shows "normalize_url v = v"
  using assms by (auto simp: normalize_url_def Let_def)

lemma normalize_url_chars:
  assumes "37 \<notin> set u"
  shows "set (normalize_url u) \<subseteq> (set u - {35, 63}) \<union> {47}"
proof -
  let ?u1 = "if 35 \<in> set u then split_first 35 u else u"
  let ?u2 = "if 63 \<in> set ?u1 then split_first 63 ?u1 else ?u1"
  have a: "35 \<notin> set ?u1" "set ?u1 \<subseteq> set u"
    using split_first_notin split_first_subset by auto
  have b: "63 \<notin> set ?u2" "set ?u2 \<subseteq> set ?u1"
    using split_first_notin split_first_subset by auto
  have c: "37 \<notin> set ?u2" using a b assms by blast
  then have d: "unquote ?u2 = ?u2" by (rule unquote_no_percent)
  have "set (normalize_url u) \<subseteq> set (unquote ?u2) \<union> {47}"
    by (auto simp: normalize_url_def Let_def)
  with a b d show ?thesis by auto
qed

text \<open>In particular the normalizer is idempotent on every input without a percent sign.\<close>

lemma normalize_url_idem_no_percent:
  assumes "37 \<notin> set u"
  shows "normalize_url (normalize_url u) = normalize_url u"
proof -
  have s: "set (normalize_url u) \<subseteq> (set u - {35, 63}) \<union> {47}"
    using assms by (rule normalize_url_chars)
  have "35 \<notin> set (normalize_url u)" "63 \<notin> set (normalize_url u)" "37 \<notin> set (normalize_url u)"
    using s assms by auto
  then show ?thesis
    by (intro normalize_url_fixed unquote_no_percent normalize_url_startswith normalize_url_trailing)
qed

text \<open>
  C1, as stated: \<open>normalize(normalize(u)) = normalize(u)\<close> for every string \<open>u\<close>. It fails
  at \<^verbatim>\<open>%2523\<close>: the first pass decodes \<^verbatim>\<open>%25\<close> to a percent sign and returns
  \<^verbatim>\<open>/%23/\<close>, the second pass decodes \<^verbatim>\<open>%23\<close> and returns \<^verbatim>\<open>/#/\<close>.
\<close>

theorem C1_normalize_not_idempotent:
  "normalize_url (py ''%2523'') = py ''/%23/''
   \<and> normalize_url (normalize_url (py ''%2523'')) = py ''/#/''
   \<and> normalize_url (normalize_url (py ''%2523'')) \<noteq> normalize_url (py ''%2523'')"
  by code_simp

text \<open>
  C1, amended: \<open>normalize(normalize(u)) = normalize(u)\<close> for every string \<open>u\<close> whose
  normalized form has no \<^verbatim>\<open>#\<close> and no \<^verbatim>\<open>?\<close> and is not changed by percent-decoding.
\<close>

theorem C1_normalize_idempotent_decoded:
  "35 \<notin> set (normalize_url u) \<Longrightarrow> 63 \<notin> set (normalize_url u)
   \<Longrightarrow> unquote (normalize_url u) = normalize_url u
   \<Longrightarrow> normalize_url (normalize_url u) = normalize_url u"
  by (rule normalize_url_fixed) (simp_all add: normalize_url_startswith normalize_url_trailing)

theorem C1_normalize_idempotent_decoded_witness:
  "35 \<notin> set (normalize_url (py ''/a%41?q''))
   \<and> 63 \<notin> set (normalize_url (py ''/a%41?q''))
   \<and> unquote (normalize_url (py ''/a%41?q'')) = normalize_url (py ''/a%41?q'')
   \<and> normalize_url (py ''/a%41?q'') = py ''/aA/''
   \<and> normalize_url (normalize_url (py ''/a%41?q'')) = normalize_url (py ''/a%41?q'')"
proof -
  have h1: "35 \<notin> set (normalize_url (py ''/a%41?q''))" by code_simp
  have h2: "63 \<notin> set (normalize_url (py ''/a%41?q''))" by code_simp
  have h3: "unquote (normalize_url (py ''/a%41?q'')) = normalize_url (py ''/a%41?q'')"
    by code_simp
  have h4: "normalize_url (py ''/a%41?q'') = py ''/aA/''" by code_simp
  from C1_normalize_idempotent_decoded [OF h1 h2 h3] h1 h2 h3 h4 show ?thesis by blast
qed

section \<open>Properties of the classifier\<close>

lemma sorted_key_sorted: "sorted (map f (sorted_key f xs))"
  by (simp add: sorted_key_def)

lemma sorted_key_stable:
  "filter (\<lambda>y. f y = k) (sorted_key f xs) = filter (\<lambda>y. f y = k) xs"
  by (simp add: sorted_key_def sort_key_stable)

lemma sorted_key_reverse_sorted: "sorted_wrt (\<ge>) (map f (sorted_key_reverse f xs))"
proof -
  have "sorted (rev (map f (sorted_key_reverse f xs)))"
    by (simp add: sorted_key_reverse_def rev_map)
  then show ?thesis by (simp add: sorted_wrt_rev)
qed

lemma sorted_key_reverse_stable:
  "filter (\<lambda>y. f y = k) (sorted_key_reverse f xs) = filter (\<lambda>y. f y = k) xs"
proof -
  have "filter (\<lambda>y. f y = k) (sorted_key_reverse f xs)
        = rev (filter (\<lambda>y. f y = k) (sort_key f (rev xs)))"
    by (simp add: sorted_key_reverse_def rev_filter)
  also have "\<dots> = rev (filter (\<lambda>y. f y = k) (rev xs))"
    by (simp only: sort_key_stable)
  also have "\<dots> = filter (\<lambda>y. f y = k) xs"
    by (simp add: rev_filter)
  finally show ?thesis .
qed

text \<open>
  C7, as stated: ties are broken by page identity. They are not: the sort key is the count
  alone and the sort is stable, so pages with equal counts stay in the order of the metrics
  dictionary. With \<^verbatim>\<open>/b/\<close> before \<^verbatim>\<open>/a/\<close> in the dictionary and equal counts, each
  of the three lists has \<^verbatim>\<open>/b/\<close> before \<^verbatim>\<open>/a/\<close>.
\<close>

theorem C7_ties_keep_dictionary_order:
  "map ul_url (find_underlinked 3 tie_metrics) = [py ''/b/'', py ''/a/'']
   \<and> map ul_inbound (find_underlinked 3 tie_metrics) = [1, 1]
   \<and> \<not> sorted (map (\<lambda>e. (ul_inbound e, ul_url e)) (find_underlinked 3 tie_metrics))
   \<and> map ol_url (find_overlinked 0 tie_metrics) = [py ''/b/'', py ''/a/'']
   \<and> map ol_outbound (find_overlinked 0 tie_metrics) = [1, 1]
   \<and> map sk_url (find_link_sinks 1 2 tie_metrics) = [py ''/b/'', py ''/a/'']
   \<and> map sk_inbound (find_link_sinks 1 2 tie_metrics) = [1, 1]"
  by code_simp

text \<open>
  C7, amended: the under-linked list is in ascending order of inbound count, the over-linked
  list in descending order of outbound count and the list of link sinks in descending order
  of inbound count; in each list the entries with the same count \<open>k\<close> are in the order in
  which the loop over the metrics dictionary collected them.
\<close>

theorem C7_sorted_by_count_stable:
  "sorted (map ul_inbound (find_underlinked t m))
   \<and> filter (\<lambda>e. ul_inbound e = k) (find_underlinked t m)
       = filter (\<lambda>e. ul_inbound e = k) (underlinked_pages t m)
   \<and> sorted_wrt (\<ge>) (map ol_outbound (find_overlinked t m))
   \<and> filter (\<lambda>e. ol_outbound e = k) (find_overlinked t m)
       = filter (\<lambda>e. ol_outbound e = k) (overlinked_pages t m)
   \<and> sorted_wrt (\<ge>) (map sk_inbound (find_link_sinks a b m))
   \<and> filter (\<lambda>e. sk_inbound e = k) (find_link_sinks a b m)
       = filter (\<lambda>e. sk_inbound e = k) (sink_pages a b m)"
  unfolding find_underlinked_def find_overlinked_def find_link_sinks_def
  by (intro conjI sorted_key_sorted sorted_key_stable sorted_key_reverse_sorted
      sorted_key_reverse_stable)

lemma orphan_pages_set:
  "set (orphan_pages m) = {page. \<exists>pm. (page, pm) \<in> set m \<and> inbound pm = 0 \<and> page \<noteq> py ''/''}"
  by (auto simp: orphan_pages_def image_iff)

lemma orphan_pages_mset:
  "mset (orphan_pages m)
   = image_mset fst (filter_mset (\<lambda>e. inbound (snd e) = 0 \<and> fst e \<noteq> py ''/'') (mset m))"
  by (simp add: orphan_pages_def case_prod_unfold)

text \<open>
  C9: the orphan list is sorted, its elements are exactly the pages of the metrics mapping
  with \<open>inbound = 0\<close> other than \<^verbatim>\<open>/\<close>, each as often as the mapping has it (once, the
  keys of a dictionary being distinct), and \<^verbatim>\<open>/\<close> is never in it.
\<close>

theorem C9_find_orphans:
  "sorted (find_orphans m)
   \<and> set (find_orphans m)
       = {page. \<exists>pm. (page, pm) \<in> set m \<and> inbound pm = 0 \<and> page \<noteq> py ''/''}
   \<and> mset (find_orphans m)
       = image_mset fst (filter_mset (\<lambda>e. inbound (snd e) = 0 \<and> fst e \<noteq> py ''/'') (mset m))
   \<and> py ''/'' \<notin> set (find_orphans m)"
proof (intro conjI)
  show "sorted (find_orphans m)" by (simp add: find_orphans_def)
  show "set (find_orphans m)
        = {page. \<exists>pm. (page, pm) \<in> set m \<and> inbound pm = 0 \<and> page \<noteq> py ''/''}"
    by (simp add: find_orphans_def orphan_pages_set)
  show "mset (find_orphans m)
        = image_mset fst (filter_mset (\<lambda>e. inbound (snd e) = 0 \<and> fst e \<noteq> py ''/'') (mset m))"
    by (simp add: find_orphans_def orphan_pages_mset)
  show "py ''/'' \<notin> set (find_orphans m)"
    by (simp add: find_orphans_def orphan_pages_set)
qed

section \<open>Properties of the false-positive filter\<close>

lemma filter_loop_eq:
  "filter_loop lower bb ic rs (rb, fp)
   = (rb @ filter (\<lambda>r. is_broken r \<and> \<not> is_false_positive lower bb ic r) rs,
      fp @ filter (\<lambda>r. is_broken r \<and> is_false_positive lower bb ic r) rs)"
  by (induction rs arbitrary: rb fp) auto

lemma filter_false_positives_eq:
  "filter_false_positives lower rs b i
   = (filter (\<lambda>r. is_broken r \<and> \<not> is_false_positive lower (list_or b default_bot_blockers)
                                     (list_or i default_ignore_codes) r) rs,
      filter (\<lambda>r. is_broken r \<and> is_false_positive lower (list_or b default_bot_blockers)
                                     (list_or i default_ignore_codes) r) rs)"
  by (simp add: filter_false_positives_def filter_loop_eq)

text \<open>Lists that the caller passes are used as they are when neither is empty.\<close>

lemma filter_false_positives_supplied:
  "b \<noteq> [] \<Longrightarrow> i \<noteq> [] \<Longrightarrow>
   filter_false_positives lower rs (Some b) (Some i) = filter_loop lower b i rs ([], [])"
  by (simp add: filter_false_positives_def list_or_def)

text \<open>
  C8: the caller passes an empty bot-blocker list and an empty ignore list. With exactly
  these lists the loop puts \<open>blocked_result\<close> among the real broken links;
  \<open>filter_false_positives\<close> replaces both empty lists by its built-in defaults
  (\<^verbatim>\<open>bot_blocker_domains or [...]\<close>) and reports it as a false positive.
\<close>

theorem C8_empty_lists_get_defaults:
  "filter_false_positives ascii_lower [blocked_result] (Some []) (Some []) = ([], [blocked_result])
   \<and> filter_loop ascii_lower [] [] [blocked_result] ([], []) = ([blocked_result], [])"
  by code_simp

text \<open>
  C10: the two returned lists together hold exactly the broken results of the input, each
  occurrence once; no result is in both lists; a result is in one of them if and only if it
  is a broken result of the input, so a result that is not broken is in neither.
\<close>

theorem C10_filter_partitions_broken:
  "mset (fst (filter_false_positives lower rs b i)) + mset (snd (filter_false_positives lower rs b i))
     = filter_mset is_broken (mset rs)
   \<and> \<not> (r \<in> set (fst (filter_false_positives lower rs b i))
        \<and> r \<in> set (snd (filter_false_positives lower rs b i)))
   \<and> ((r \<in> set (fst (filter_false_positives lower rs b i))
        \<or> r \<in> set (snd (filter_false_positives lower rs b i)))
       \<longleftrightarrow> (r \<in> set rs \<and> is_broken r))"
proof (intro conjI)
  let ?fp = "is_false_positive lower (list_or b default_bot_blockers) (list_or i default_ignore_codes)"
  have "mset (filter (\<lambda>r. is_broken r \<and> \<not> ?fp r) rs) + mset (filter (\<lambda>r. is_broken r \<and> ?fp r) rs)
        = filter_mset is_broken (mset rs)"
    by (induction rs) auto
  then show "mset (fst (filter_false_positives lower rs b i))
             + mset (snd (filter_false_positives lower rs b i)) = filter_mset is_broken (mset rs)"
    by (simp add: filter_false_positives_eq)
  show "\<not> (r \<in> set (fst (filter_false_positives lower rs b i))
        \<and> r \<in> set (snd (filter_false_positives lower rs b i)))"
    by (simp add: filter_false_positives_eq)
  show "(r \<in> set (fst (filter_false_positives lower rs b i))
        \<or> r \<in> set (snd (filter_false_positives lower rs b i)))
       \<longleftrightarrow> (r \<in> set rs \<and> is_broken r)"
    by (auto simp add: filter_false_positives_eq)
qed

section \<open>Properties of the link checker\<close>

lemma attempt_times_outD:
  "attempt_times_out net u i
   \<Longrightarrow> \<exists>e ev. try_request net u i = (Inl e, ev) \<and> is_Timeout (exc_cls e)"
  by (cases "try_request net u i") (auto simp: attempt_times_out_def split: sum.splits)

lemma attempt_connection_failsD:
  "attempt_connection_fails net u i
   \<Longrightarrow> \<exists>e ev. try_request net u i = (Inl e, ev)
              \<and> is_ConnectionError (exc_cls e) \<and> \<not> is_Timeout (exc_cls e)"
  by (cases "try_request net u i") (auto simp: attempt_connection_fails_def split: sum.splits)

lemma timeouts_trace_Cons:
  "a < k \<Longrightarrow> timeouts_trace net u a k
     = snd (try_request net u a) @ Sleep 1 # timeouts_trace net u (Suc a) k"
  by (simp add: timeouts_trace_def upt_conv_Cons)

text \<open>
  Attempts that time out before the last one are followed by the sleep and by the next
  attempt: the loop from attempt \<open>a\<close> is the loop from attempt \<open>k\<close> after their trace.
\<close>

lemma check_url_attempts_skip:
  assumes "a \<le> k" "k < n" "int n = retry_count c"
    and "list_all (attempt_times_out net u) [a..<k]"
  shows "check_url_attempts c net u [a..<n]
         = (fst (check_url_attempts c net u [k..<n]),
            timeouts_trace net u a k @ snd (check_url_attempts c net u [k..<n]))"
  using assms
proof (induction "k - a" arbitrary: a)
  case 0
  then have "a = k" by simp
  then show ?case by (simp add: timeouts_trace_def)
next
  case (Suc d)
  then have ak: "a < k" "a < n" by linarith+
  have up: "[a..<n] = a # [Suc a..<n]" "[a..<k] = a # [Suc a..<k]"
    using ak by (simp_all add: upt_conv_Cons)
  from Suc.prems(4) have now: "attempt_times_out net u a"
    and later: "list_all (attempt_times_out net u) [Suc a..<k]"
    unfolding up(2) by simp_all
  from attempt_times_outD[OF now] obtain e ev
    where t: "try_request net u a = (Inl e, ev)" and e: "is_Timeout (exc_cls e)" by blast
  have notlast: "int a \<noteq> retry_count c - 1" using ak Suc.prems by linarith
  have IH: "check_url_attempts c net u [Suc a..<n]
         = (fst (check_url_attempts c net u [k..<n]),
            timeouts_trace net u (Suc a) k @ snd (check_url_attempts c net u [k..<n]))"
    using Suc.hyps(2) Suc.prems(1,2,3) ak later by (intro Suc.hyps(1)) auto
  show ?case
    unfolding up(1) check_url_attempts.simps t
    by (simp add: e notlast IH timeouts_trace_Cons[OF ak(1)] t)
qed

lemma check_url_after_timeouts:
  assumes "int k < retry_count c" and "list_all (attempt_times_out net u) [0..<k]"
  shows "check_url c net u
         = (fst (check_url_attempts c net u [k..<nat (retry_count c)]),
            timeouts_trace net u 0 k @ snd (check_url_attempts c net u [k..<nat (retry_count c)]))"
  unfolding check_url_def using assms
  by (intro check_url_attempts_skip) auto

text \<open>
  When every attempt times out, \<open>check_url\<close> makes \<open>retry_count\<close> attempts in all, with
  the sleep between two attempts, and returns "Timeout".
\<close>

lemma check_url_all_timeouts:
  assumes "0 < retry_count c"
    and "list_all (attempt_times_out net u) [0..<nat (retry_count c)]"
  shows "check_url c net u
         = ((None, py ''Timeout'', True),
            timeouts_trace net u 0 (nat (retry_count c) - 1)
            @ snd (try_request net u (nat (retry_count c) - 1)))"
proof -
  let ?n = "nat (retry_count c)"
  let ?k = "?n - 1"
  have k: "int ?k < retry_count c" "int ?k = retry_count c - 1" using assms(1) by linarith+
  have up: "[?k..<?n] = [?k]" "[0..<?n] = [0..<?k] @ [?k]"
    using assms(1) by (simp_all add: upt_conv_Cons flip: upt_Suc_append)
  from assms(2) have before: "list_all (attempt_times_out net u) [0..<?k]"
    and last: "attempt_times_out net u ?k"
    unfolding up(2) by simp_all
  from attempt_times_outD[OF last] obtain e ev
    where t: "try_request net u ?k = (Inl e, ev)" and e: "is_Timeout (exc_cls e)" by blast
  have "check_url_attempts c net u [?k..<?n] = ((None, py ''Timeout'', True), ev)"
    unfolding up(1) check_url_attempts.simps t using e k(2) by simp
  then show ?thesis
    using check_url_after_timeouts[OF k(1) before] t by simp
qed

lemma check_url_no_attempt:
  "retry_count c \<le> 0 \<Longrightarrow> check_url c net u = ((None, py ''Unknown Error'', True), [])"
  by (simp add: check_url_def)

text \<open>
  C5, as stated: the reason of a connection failure is "Connection Error". The code returns
  the longer message "Connection Error (Domain may not exist)".
\<close>

theorem C5_reason_is_longer:
  "check_url default_checker net_refused (py ''http://localhost:9/'')
   = ((None, py ''Connection Error (Domain may not exist)'', True), [Request HEAD 0])
   \<and> fst (snd (fst (check_url default_checker net_refused (py ''http://localhost:9/''))))
       \<noteq> py ''Connection Error''"
  by code_simp

text \<open>
  C5, amended: when attempt \<open>k\<close> is made (the attempts before it, if any, timed out) and
  fails with a connection error, \<open>check_url\<close> returns at once: no status code, the reason
  "Connection Error (Domain may not exist)", broken; the trace ends with the requests of
  attempt \<open>k\<close>, with no sleep and no request after them.
\<close>

theorem C5_connection_error_immediate:
  assumes "int k < retry_count c"
    and "list_all (attempt_times_out net u) [0..<k]"
    and "attempt_connection_fails net u k"
  shows "check_url c net u
         = ((None, py ''Connection Error (Domain may not exist)'', True),
            timeouts_trace net u 0 k @ snd (try_request net u k))"
proof -
  have kn: "k < nat (retry_count c)" using assms(1) by linarith
  then have up: "[k..<nat (retry_count c)] = k # [Suc k..<nat (retry_count c)]"
    by (simp add: upt_conv_Cons)
  from attempt_connection_failsD[OF assms(3)] obtain e ev
    where t: "try_request net u k = (Inl e, ev)"
      and e: "is_ConnectionError (exc_cls e)" "\<not> is_Timeout (exc_cls e)" by blast
  have "check_url_attempts c net u [k..<nat (retry_count c)]
        = ((None, py ''Connection Error (Domain may not exist)'', True), ev)"
    unfolding up check_url_attempts.simps t using e by simp
  then show ?thesis
    using check_url_after_timeouts[OF assms(1,2)] t by simp
qed

theorem C5_connection_error_immediate_witness:
  "int 1 < retry_count (default_checker\<lparr>retry_count := 3\<rparr>)
   \<and> list_all (attempt_times_out net_flaky (py ''http://localhost:9/'')) [0..<1]
   \<and> attempt_connection_fails net_flaky (py ''http://localhost:9/'') 1
   \<and> check_url (default_checker\<lparr>retry_count := 3\<rparr>) net_flaky (py ''http://localhost:9/'')
       = ((None, py ''Connection Error (Domain may not exist)'', True),
          [Request HEAD 0, Sleep 1, Request HEAD 1])"
proof -
  have h1: "int 1 < retry_count (default_checker\<lparr>retry_count := 3\<rparr>)" by simp
  have h2: "list_all (attempt_times_out net_flaky (py ''http://localhost:9/'')) [0..<1]"
    by code_simp
  have h3: "attempt_connection_fails net_flaky (py ''http://localhost:9/'') 1"
    by code_simp
  have tr: "timeouts_trace net_flaky (py ''http://localhost:9/'') 0 1
            @ snd (try_request net_flaky (py ''http://localhost:9/'') 1)
            = [Request HEAD 0, Sleep 1, Request HEAD 1]"
    by code_simp
  from C5_connection_error_immediate [OF h1 h2 h3] tr h1 h2 h3 show ?thesis by simp
qed



text \<open>There is a completion order for every submission: \<open>check_urls\<close> has a result.\<close>

lemma as_completed_refl: "as_completed xs xs"
  by (induction xs) (auto intro: as_completed.intros)






section \<open>Properties of the link graph and its metrics\<close>

lemma map_of_dict_set: "map_of (dict_set k v d) = (map_of d)(k \<mapsto> v)"
  by (induction d) (auto simp: fun_eq_iff)

lemma dict_set_keys:
  "map fst (dict_set k v d) = (if k \<in> fst ` set d then map fst d else map fst d @ [k])"
proof (induction d)
  case Nil
  then show ?case by simp
next
  case (Cons e d)
  obtain k' v' where e: "e = (k', v')" by (cases e)
  show ?case using Cons.IH by (cases "k' = k") (auto simp: e)
qed

lemma dict_set_new: "k \<notin> fst ` set d \<Longrightarrow> dict_set k v d = d @ [(k, v)]"
  by (induction d) auto

lemma dict_set_entries: "set (dict_set k v d) \<subseteq> insert (k, v) (set d)"
proof (induction d)
  case Nil
  then show ?case by simp
next
  case (Cons e d)
  obtain k' v' where e: "e = (k', v')" by (cases e)
  show ?case using Cons.IH by (cases "k' = k") (auto simp: e)
qed

lemma dict_get_dict_append:
  "dict_get (dict_append k v d) k' = (if k' = k then dict_get d k @ [v] else dict_get d k')"
  by (simp add: dict_get_def dict_append_def map_of_dict_set)

lemma dict_get_entry:
  "distinct (map fst d) \<Longrightarrow> (k, vs) \<in> set d \<Longrightarrow> dict_get d k = vs"
  by (simp add: dict_get_def)

lemma dict_get_absent: "k \<notin> fst ` set d \<Longrightarrow> dict_get d k = []"
proof -
  assume "k \<notin> fst ` set d"
  then have "map_of d k = None" by (simp add: map_of_eq_None_iff)
  then show ?thesis by (simp add: dict_get_def)
qed

lemma dict_get_mem:
  "distinct (map fst d) \<Longrightarrow> v \<in> set (dict_get d k) \<longleftrightarrow> (\<exists>vs. (k, vs) \<in> set d \<and> v \<in> set vs)"
  by (auto simp: dict_get_def split: option.splits)

subsection \<open>The reverse graph\<close>

lemma reverse_targets:
  "dict_get (fold (\<lambda>target. dict_append target source) targets d) t
   = dict_get d t @ replicate (count_list targets t) source"
  by (induction targets arbitrary: d) (auto simp: dict_get_dict_append replicate_app_Cons_same)

lemma reverse_sources:
  "dict_get (fold (\<lambda>(source, targets) d.
               fold (\<lambda>target. dict_append target source) targets d) g d) t
   = dict_get d t @ concat (map (\<lambda>(source, targets). replicate (count_list targets t) source) g)"
  by (induction g arbitrary: d) (auto simp: reverse_targets)

lemma dict_get_reverse_graph:
  "dict_get (reverse_graph g) t
   = concat (map (\<lambda>(source, targets). replicate (count_list targets t) source) g)"
proof -
  have "dict_get ([] :: (pystr \<times> pystr list) list) t = []" by (simp add: dict_get_def)
  then show ?thesis unfolding reverse_graph_def reverse_sources by simp
qed

lemma reverse_graph_mem:
  "s \<in> set (dict_get (reverse_graph g) t) \<longleftrightarrow> (\<exists>ts. (s, ts) \<in> set g \<and> t \<in> set ts)"
proof -
  have "0 < count_list ts t \<longleftrightarrow> t \<in> set ts" for ts :: "pystr list"
    using count_list_0_iff[of ts t] by auto
  then show ?thesis
    by (auto simp: dict_get_reverse_graph)
qed

lemma reverse_graph_length:
  "length (dict_get (reverse_graph g) t)
   = sum_list (map (\<lambda>(source, targets). count_list targets t) g)"
  by (induction g) (auto simp: dict_get_reverse_graph length_concat)

text \<open>The edge relation read from the graph is the one read from the reverse graph.\<close>

lemma reverse_graph_iff:
  assumes "distinct (map fst g)"
  shows "t \<in> set (dict_get g s) \<longleftrightarrow> s \<in> set (dict_get (reverse_graph g) t)"
  by (simp add: dict_get_mem[OF assms] reverse_graph_mem)

subsection \<open>Counting the edges from both ends\<close>

lemma int_sum_list_map: "int (sum_list (map f xs)) = sum_list (map (\<lambda>x. int (f x)) xs)"
  by (induction xs) simp_all

lemma count_over_pages:
  assumes "distinct ps" "set ts \<subseteq> set ps"
  shows "sum_list (map (count_list ts) ps) = length ts"
proof -
  have "sum_list (map (count_list ts) ps) = sum (count_list ts) (set ps)"
    using assms(1) by (rule sum_list_distinct_conv_sum_set)
  also have "\<dots> = length ts"
    using assms(2) by (intro sum_count_set) simp_all
  finally show ?thesis .
qed

lemma inbound_total:
  assumes "distinct ps" "list_all (\<lambda>(s, ts). set ts \<subseteq> set ps) g"
  shows "sum_list (map (\<lambda>p. length (dict_get (reverse_graph g) p)) ps)
         = sum_list (map (\<lambda>(s, ts). length ts) g)"
proof -
  have "sum_list (map (\<lambda>p. sum_list (map (\<lambda>(s, ts). count_list ts p) g)) ps)
        = sum_list (map (\<lambda>(s, ts). length ts) g)"
    using assms(2)
  proof (induction g)
    case Nil
    then show ?case by simp
  next
    case (Cons e g)
    obtain s ts where e: "e = (s, ts)" by (cases e)
    with Cons.prems have sub: "set ts \<subseteq> set ps" and rest: "list_all (\<lambda>(s, ts). set ts \<subseteq> set ps) g"
      by simp_all
    have "sum_list (map (\<lambda>p. sum_list (map (\<lambda>(s, ts). count_list ts p) (e # g))) ps)
          = sum_list (map (count_list ts) ps)
            + sum_list (map (\<lambda>p. sum_list (map (\<lambda>(s, ts). count_list ts p) g)) ps)"
      by (simp add: e sum_list_addf)
    then show ?case
      by (simp add: e count_over_pages[OF assms(1) sub] Cons.IH[OF rest])
  qed
  then show ?thesis by (simp add: reverse_graph_length)
qed

lemma outbound_total:
  assumes "distinct (map fst g)" "distinct ps" "fst ` set g \<subseteq> set ps"
  shows "sum_list (map (\<lambda>p. length (dict_get g p)) ps)
         = sum_list (map (\<lambda>(s, ts). length ts) g)"
proof -
  let ?f = "\<lambda>p. length (dict_get g p)"
  have "sum_list (map ?f ps) = sum ?f (set ps)"
    using assms(2) by (rule sum_list_distinct_conv_sum_set)
  also have "\<dots> = sum ?f (fst ` set g)"
    using assms(3) by (intro sum.mono_neutral_right) (auto simp: dict_get_absent)
  also have "\<dots> = sum ?f (set (map fst g))" by simp
  also have "\<dots> = sum_list (map ?f (map fst g))"
    using assms(1) by (rule sum_list_distinct_conv_sum_set[symmetric])
  also have "\<dots> = sum_list (map (\<lambda>(s, ts). length ts) g)"
  proof -
    have "?f (fst e) = (case e of (s, ts) \<Rightarrow> length ts)" if "e \<in> set g" for e
    proof -
      obtain s ts where e: "e = (s, ts)" by (cases e)
      with that have "dict_get g s = ts" by (intro dict_get_entry[OF assms(1)]) simp
      then show ?thesis by (simp add: e)
    qed
    then have "map (?f \<circ> fst) g = map (\<lambda>(s, ts). length ts) g"
      by (intro map_cong) simp_all
    then show ?thesis by (simp only: map_map)
  qed
  finally show ?thesis .
qed

subsection \<open>The graph that \<open>build_graph\<close> produces\<close>

lemma set_add_set: "set (set_add x s) = insert x (set s)"
  by (auto simp: set_add_def)

lemma set_add_distinct: "distinct s \<Longrightarrow> distinct (set_add x s)"
  by (simp add: set_add_def)

lemma fold_set_add_set: "set (fold set_add xs s) = set xs \<union> set s"
  by (induction xs arbitrary: s) (auto simp: set_add_set)

lemma fold_set_add_distinct: "distinct s \<Longrightarrow> distinct (fold set_add xs s)"
  by (induction xs arbitrary: s) (auto simp: set_add_distinct)

lemma graph_ok_iff:
  "graph_ok a \<longleftrightarrow>
     distinct (map fst (link_graph a)) \<and> distinct (all_pages a)
     \<and> (\<forall>(s, ts) \<in> set (link_graph a). s \<in> set (all_pages a) \<and> set ts \<subseteq> set (all_pages a))"
  by (auto simp: graph_ok_def list_all_iff)

lemma graph_ok_init: "graph_ok (LinkGraphAnalyzer_init ep ee)"
  by (simp add: graph_ok_def LinkGraphAnalyzer_init_def)

lemma graph_ok_step:
  assumes "graph_ok a"
  shows "graph_ok (build_graph_step lower file a)"
proof (cases "is_excluded lower a (file_path_to_url (fst file))")
  case True
  then show ?thesis using assms by (simp add: build_graph_step_def)
next
  case False
  let ?src = "file_path_to_url (fst file)"
  let ?a1 = "a\<lparr>all_pages := set_add ?src (all_pages a)\<rparr>"
  have a1: "graph_ok ?a1"
    using assms by (auto simp: graph_ok_iff set_add_set set_add_distinct)
  show ?thesis
  proof (cases "snd file")
    case None
    then show ?thesis using False a1 by (simp add: build_graph_step_def Let_def)
  next
    case (Some hrefs)
    let ?ul = "list_of_set (extract_internal_links lower ?a1 hrefs)"
    let ?a2 = "?a1\<lparr>link_graph := dict_set ?src ?ul (link_graph ?a1),
                    all_pages := fold set_add ?ul (all_pages ?a1)\<rparr>"
    have eq: "build_graph_step lower file a = ?a2"
      using False Some by (simp add: build_graph_step_def Let_def)
    have keys: "distinct (map fst (link_graph ?a2))"
      using a1 by (auto simp: graph_ok_iff dict_set_keys)
    have pages: "distinct (all_pages ?a2)"
      using a1 by (simp add: graph_ok_iff fold_set_add_distinct)
    have entries: "\<forall>(s, ts) \<in> set (link_graph ?a2).
                     s \<in> set (all_pages ?a2) \<and> set ts \<subseteq> set (all_pages ?a2)"
    proof -
      have old: "\<forall>(s, ts) \<in> set (link_graph ?a1).
                   s \<in> set (all_pages ?a2) \<and> set ts \<subseteq> set (all_pages ?a2)"
        using a1 by (auto simp: graph_ok_iff fold_set_add_set)
      have new: "?src \<in> set (all_pages ?a2) \<and> set ?ul \<subseteq> set (all_pages ?a2)"
        by (auto simp: fold_set_add_set set_add_set)
      have "set (link_graph ?a2) \<subseteq> insert (?src, ?ul) (set (link_graph ?a1))"
        using dict_set_entries by simp
      with old new show ?thesis by blast
    qed
    show ?thesis
      unfolding eq graph_ok_iff using keys pages entries by blast
  qed
qed

lemma graph_ok_fold:
  "graph_ok a \<Longrightarrow> graph_ok (fold (build_graph_step lower) files a)"
  by (induction files arbitrary: a) (auto simp: graph_ok_step)

lemma graph_ok_build_graph:
  "graph_ok a \<Longrightarrow> graph_ok (build_graph lower files a)"
  by (simp add: build_graph_def graph_ok_fold)

lemma build_graph_step_metrics: "metrics (build_graph_step lower file a) = metrics a"
  by (simp add: build_graph_step_def Let_def split: option.splits)

lemma build_graph_metrics: "metrics (build_graph lower files a) = metrics a"
  unfolding build_graph_def
  by (induction files arbitrary: a) (auto simp: build_graph_step_metrics)

subsection \<open>The metrics mapping\<close>

lemma map_of_fold_dict_set:
  "map_of (fold (\<lambda>p. dict_set p (f p)) ps m) k
   = (if k \<in> set ps then Some (f k) else map_of m k)"
  by (induction ps arbitrary: m) (auto simp: map_of_dict_set)

lemma fold_dict_set_fresh:
  "distinct ps \<Longrightarrow> set ps \<inter> fst ` set m = {}
   \<Longrightarrow> fold (\<lambda>p. dict_set p (f p)) ps m = m @ map (\<lambda>p. (p, f p)) ps"
proof (induction ps arbitrary: m)
  case Nil
  then show ?case by simp
next
  case (Cons p ps)
  from Cons.prems have new: "p \<notin> fst ` set m" by auto
  have "set ps \<inter> fst ` set (m @ [(p, f p)]) = {}"
    using Cons.prems by auto
  with Cons.prems Cons.IH[of "m @ [(p, f p)]"] show ?case
    by (simp add: dict_set_new[OF new])
qed

lemma calculate_metrics_fresh:
  assumes "distinct (all_pages a)" "metrics a = []"
  shows "metrics (calculate_metrics ops a)
         = map (\<lambda>page. (page, page_metrics ops (link_graph a) (reverse_graph (link_graph a)) page))
             (all_pages a)"
  using assms by (simp add: calculate_metrics_def Let_def fold_dict_set_fresh)

lemma calculate_metrics_graph: "link_graph (calculate_metrics ops a) = link_graph a"
  by (simp add: calculate_metrics_def Let_def)

text \<open>
  C2: in the analyzer that \<open>build_graph\<close> and \<open>calculate_metrics\<close> leave, starting from
  a new one, a target is among the outbound links of a source if and only if the source is
  among the inbound links of the target in the reverse graph that the metrics are computed
  from, and the outbound counts of all pages add up to the same number as the inbound counts.
\<close>

theorem C2_reverse_index_and_edge_count:
  "(target \<in> set (dict_get (link_graph (analyzed ops lower ep ee html_files)) source)
      \<longleftrightarrow> source \<in> set (dict_get (reverse_graph
                             (link_graph (analyzed ops lower ep ee html_files))) target))
   \<and> sum_list (map (\<lambda>(page, pm). outbound pm) (metrics (analyzed ops lower ep ee html_files)))
       = sum_list (map (\<lambda>(page, pm). inbound pm) (metrics (analyzed ops lower ep ee html_files)))"
proof -
  let ?a = "analyzed ops lower ep ee html_files"
  let ?b = "build_graph lower html_files (LinkGraphAnalyzer_init ep ee) :: 'a LinkGraphAnalyzer"
  let ?g = "link_graph ?b"
  let ?ps = "all_pages ?b"
  have ok: "graph_ok ?b" by (intro graph_ok_build_graph graph_ok_init)
  then have keys: "distinct (map fst ?g)" and pages: "distinct ?ps"
    and src: "fst ` set ?g \<subseteq> set ?ps"
    and tgt: "list_all (\<lambda>(s, ts). set ts \<subseteq> set ?ps) ?g"
    by (auto simp: graph_ok_iff list_all_iff)
  have fresh: "metrics ?b = []"
    by (simp add: build_graph_metrics LinkGraphAnalyzer_init_def)
  have a: "?a = calculate_metrics ops ?b" by (simp add: analyzed_def)
  have m: "metrics ?a = map (\<lambda>page. (page, page_metrics ops ?g (reverse_graph ?g) page)) ?ps"
    unfolding a by (rule calculate_metrics_fresh[OF pages fresh])
  have out: "sum_list (map (\<lambda>(page, pm). outbound pm) (metrics ?a))
             = int (sum_list (map (\<lambda>p. length (dict_get ?g p)) ?ps))"
    by (simp add: m comp_def page_metrics_def Let_def int_sum_list_map)
  have inb: "sum_list (map (\<lambda>(page, pm). inbound pm) (metrics ?a))
             = int (sum_list (map (\<lambda>p. length (dict_get (reverse_graph ?g) p)) ?ps))"
    by (simp add: m comp_def page_metrics_def Let_def int_sum_list_map)
  have "link_graph ?a = ?g" unfolding a by (rule calculate_metrics_graph)
  then show ?thesis
    using reverse_graph_iff[OF keys] out inb
      outbound_total[OF keys pages src] inbound_total[OF pages tgt]
    by simp
qed

text \<open>
  C3: for a page of the analyzer and its entry in the computed metrics mapping, the ratio is
  the integer \<open>-1\<close> when \<open>outbound = 0\<close> and \<open>inbound > 0\<close>, the float \<open>0.0\<close> when both are
  \<open>0\<close>, and \<^verbatim>\<open>round(inbound / outbound, 2)\<close> otherwise; \<^verbatim>\<open>round(0.0, 2)\<close> being
  \<^verbatim>\<open>0.0\<close> is the one property of the floating-point operations that is used.
\<close>

theorem C3_ratio_policy:
  assumes "round2 ops (fzero ops) = fzero ops"
    and "page \<in> set (all_pages a)"
    and "map_of (metrics (calculate_metrics ops a)) page = Some pm"
  shows "ratio pm =
          (if outbound pm = 0 \<and> inbound pm > 0 then PyInt (- 1)
           else if outbound pm = 0 \<and> inbound pm = 0 then PyFloat (fzero ops)
           else PyFloat (round2 ops (truediv ops (inbound pm) (outbound pm))))"
proof -
  have "map_of (metrics (calculate_metrics ops a)) page
        = Some (page_metrics ops (link_graph a) (reverse_graph (link_graph a)) page)"
    using assms(2) by (simp add: calculate_metrics_def Let_def map_of_fold_dict_set)
  with assms(3) have pm: "pm = page_metrics ops (link_graph a) (reverse_graph (link_graph a)) page"
    by simp
  show ?thesis
    unfolding pm using assms(1) by (simp add: page_metrics_def page_ratio_def Let_def)
qed

theorem C3_ratio_policy_witness:
  "round2 rat_ops (fzero rat_ops) = fzero rat_ops
   \<and> py ''/b/'' \<in> set (all_pages three_page_site)
   \<and> map_of (metrics (calculate_metrics rat_ops three_page_site)) (py ''/b/'')
       = Some \<lparr> url = py ''/b/'', inbound = 1, outbound = 0, ratio = PyInt (- 1),
                inbound_from = [py ''/a/''], outbound_to = [] \<rparr>
   \<and> ratio \<lparr> url = py ''/b/'', inbound = 1, outbound = 0, ratio = PyInt (- 1) :: rat pynum,
             inbound_from = [py ''/a/''], outbound_to = [] \<rparr>
       = (if (0::int) = 0 \<and> (1::int) > 0 then PyInt (- 1)
          else if (0::int) = 0 \<and> (1::int) = 0 then PyFloat (fzero rat_ops)
          else PyFloat (round2 rat_ops (truediv rat_ops 1 0)))"
proof -
  have h1: "round2 rat_ops (fzero rat_ops) = fzero rat_ops" by code_simp
  have h2: "py ''/b/'' \<in> set (all_pages three_page_site)" by code_simp
  have h3: "map_of (metrics (calculate_metrics rat_ops three_page_site)) (py ''/b/'')
       = Some \<lparr> url = py ''/b/'', inbound = 1, outbound = 0, ratio = PyInt (- 1),
                inbound_from = [py ''/a/''], outbound_to = [] \<rparr>" by code_simp
  from C3_ratio_policy [OF h1 h2 h3] h1 h2 h3 show ?thesis by simp
qed

end
